theory Spec2Isabelle
  imports Main "HOL-Library.Word"
begin

unbundle bit_operations_syntax

section \<open>The MindWave dongle listener (mindwave.py)\<close>

subsection \<open>Byte codes and status codes\<close>

text \<open>
  A Python \<open>bytes\<close> object is a list of 8-bit values; indexing it gives an unbounded
  integer between 0 and 255, read here with \<open>uint\<close> or \<open>unat\<close>.
\<close>

type_synonym byte = "8 word"

abbreviation SYNC :: byte where "SYNC \<equiv> 0xaa"
abbreviation EXCODE :: byte where "EXCODE \<equiv> 0x55"
abbreviation POOR_SIGNAL :: byte where "POOR_SIGNAL \<equiv> 0x02"
abbreviation ATTENTION :: byte where "ATTENTION \<equiv> 0x04"
abbreviation MEDITATION :: byte where "MEDITATION \<equiv> 0x05"
abbreviation BLINK :: byte where "BLINK \<equiv> 0x16"
abbreviation HEADSET_CONNECTED :: byte where "HEADSET_CONNECTED \<equiv> 0xd0"
abbreviation HEADSET_NOT_FOUND :: byte where "HEADSET_NOT_FOUND \<equiv> 0xd1"
abbreviation HEADSET_DISCONNECTED :: byte where "HEADSET_DISCONNECTED \<equiv> 0xd2"
abbreviation REQUEST_DENIED :: byte where "REQUEST_DENIED \<equiv> 0xd3"
abbreviation STANDBY_SCAN :: byte where "STANDBY_SCAN \<equiv> 0xd4"
abbreviation RAW_VALUE :: byte where "RAW_VALUE \<equiv> 0x80"

datatype status = STATUS_CONNECTED | STATUS_SCANNING | STATUS_STANDBY

subsection \<open>The headset object\<close>

text \<open>
  The twelve handler lists of \<open>Headset.__init__\<close> are one field \<open>handlers\<close>, indexed by
  the name of the list. A handler is an opaque identifier: the model assumes that a
  handler observes the headset only (it neither assigns its attributes nor raises), and
  records every invocation, in order, in the field \<open>calls\<close>, which is not an attribute
  of the Python object. \<open>Call r f args\<close> is the call \<open>f(headset, *args)\<close> made while
  iterating over the list \<open>r\<close>.
\<close>

datatype registry =
    poor_signal_handlers | good_signal_handlers | attention_handlers
  | meditation_handlers | blink_handlers | raw_value_handlers
  | headset_connected_handlers | headset_notfound_handlers
  | headset_disconnected_handlers | request_denied_handlers
  | scanning_handlers | standby_handlers

type_synonym handler = nat

datatype arg = IntArg int | StrArg string | NoneArg

datatype call = Call registry handler "arg list"

record headset =
  headset_id :: "string option"
  poor_signal :: int
  attention :: int
  meditation :: int
  blink :: int
  raw_value :: int
  status :: "status option"
  handlers :: "registry \<Rightarrow> handler list"
  calls :: "call list"

text \<open>\<open>Headset.__init__\<close> (lines 210-236), before any handler is registered.\<close>

definition init :: "string option \<Rightarrow> headset" where
  "init hid = \<lparr> headset_id = hid, poor_signal = 255, attention = 0, meditation = 0,
      blink = 0, raw_value = 0, status = None, handlers = (\<lambda>r. []), calls = [] \<rparr>"

text \<open>\<open>headset.<r>.append(f)\<close>.\<close>

definition register :: "registry \<Rightarrow> handler \<Rightarrow> headset \<Rightarrow> headset" where
  "register r f h = h\<lparr>handlers := (handlers h)(r := handlers h r @ [f])\<rparr>"

text \<open>\<open>for handler in self.headset.<r>: handler(self.headset, *args)\<close>.\<close>

definition run_handlers :: "registry \<Rightarrow> arg list \<Rightarrow> headset \<Rightarrow> headset" where
  "run_handlers r args h = h\<lparr>calls := calls h @ map (\<lambda>f. Call r f args) (handlers h r)\<rparr>"

text \<open>\<open>bytes.hex()\<close>: two lower-case hexadecimal digits for each byte.\<close>

definition hex_digit :: "nat \<Rightarrow> char" where
  "hex_digit n = ''0123456789abcdef'' ! n"

definition hex :: "byte list \<Rightarrow> string" where
  "hex bs = concat (map (\<lambda>b. [hex_digit (unat b div 16), hex_digit (unat b mod 16)]) bs)"

subsection \<open>\<open>parse_payload\<close>: dispatching one data row\<close>

datatype error = IndexError

datatype outcome = Returned headset | Raised error headset

text \<open>Lines 118-144: the single-byte codes.\<close>

definition dispatch_single :: "byte \<Rightarrow> byte \<Rightarrow> headset \<Rightarrow> headset" where
  "dispatch_single code val h =
    (if code = POOR_SIGNAL then
       (let old_poor_signal = poor_signal h;
            h = h\<lparr>poor_signal := uint val\<rparr>
        in if poor_signal h > 0
           then (if old_poor_signal = 0
                 then run_handlers poor_signal_handlers [IntArg (poor_signal h)] h else h)
           else (if old_poor_signal > 0
                 then run_handlers good_signal_handlers [IntArg (poor_signal h)] h else h))
     else if code = ATTENTION then
       (let h = h\<lparr>attention := uint val\<rparr>
        in run_handlers attention_handlers [IntArg (attention h)] h)
     else if code = MEDITATION then
       (let h = h\<lparr>meditation := uint val\<rparr>
        in run_handlers meditation_handlers [IntArg (meditation h)] h)
     else if code = BLINK then
       (let h = h\<lparr>blink := uint val\<rparr>
        in run_handlers blink_handlers [IntArg (blink h)] h)
     else h)"

text \<open>
  Lines 158-164: \<open>value[0]\<close> and \<open>value[1]\<close> are read outside any \<open>try\<close>, so a value
  of fewer than two bytes raises IndexError out of \<open>parse_payload\<close>.
\<close>

definition dispatch_raw :: "byte \<Rightarrow> byte list \<Rightarrow> headset \<Rightarrow> outcome" where
  "dispatch_raw code val h =
    (if code = RAW_VALUE then
       (case val of
          v0 # v1 # _ \<Rightarrow>
            (let raw = uint v0 * 256 + uint v1;
                 raw = (if raw \<ge> 32768 then raw - 65536 else raw);
                 h = h\<lparr>raw_value := raw\<rparr>
             in Returned (run_handlers raw_value_handlers [IntArg (raw_value h)] h))
        | _ \<Rightarrow> Raised IndexError h)
     else Returned h)"

text \<open>Lines 165-208: the connection codes.\<close>

definition dispatch_status :: "byte \<Rightarrow> byte \<Rightarrow> byte list \<Rightarrow> headset \<Rightarrow> headset" where
  "dispatch_status code vlength val h =
    (if code = HEADSET_CONNECTED then
       (let run = (status h \<noteq> Some STATUS_CONNECTED);
            h = h\<lparr>status := Some STATUS_CONNECTED\<rparr>;
            h = h\<lparr>headset_id := Some (hex val)\<rparr>
        in if run then run_handlers headset_connected_handlers [] h else h)
     else if code = HEADSET_NOT_FOUND then
       (if uint vlength > 0
        then (let not_found_id = hex val
              in run_handlers headset_notfound_handlers [StrArg not_found_id] h)
        else run_handlers headset_notfound_handlers [NoneArg] h)
     else if code = HEADSET_DISCONNECTED then
       (let headset_id = hex val
        in run_handlers headset_disconnected_handlers [StrArg headset_id] h)
     else if code = REQUEST_DENIED then
       run_handlers request_denied_handlers [] h
     else if code = STANDBY_SCAN then
       (let byte = (case val of [] \<Rightarrow> None | b # _ \<Rightarrow> Some b)
        in if (case byte of None \<Rightarrow> False | Some b \<Rightarrow> b \<noteq> 0)
           then (let run = (status h \<noteq> Some STATUS_SCANNING);
                     h = h\<lparr>status := Some STATUS_SCANNING\<rparr>
                 in if run then run_handlers scanning_handlers [] h else h)
           else (let run = (status h \<noteq> Some STATUS_STANDBY);
                     h = h\<lparr>status := Some STATUS_STANDBY\<rparr>
                 in if run then run_handlers standby_handlers [] h else h))
     else h)"

text \<open>Lines 158-208: the two \<open>if\<close> chains of the multi-byte branch, one after the other.\<close>

definition dispatch_multi :: "byte \<Rightarrow> byte \<Rightarrow> byte list \<Rightarrow> headset \<Rightarrow> outcome" where
  "dispatch_multi code vlength val h =
    (case dispatch_raw code val h of
       Raised e h' \<Rightarrow> Raised e h'
     | Returned h' \<Rightarrow> Returned (dispatch_status code vlength val h'))"

subsection \<open>\<open>parse_payload\<close>: the loop\<close>

text \<open>
  Lines 101-108, the inner loop that counts EXCODE bytes. Its \<open>break\<close> leaves the inner
  loop only, with \<open>code\<close> still EXCODE. The result is \<open>(code, index, excode)\<close>.
\<close>

function skip_excode :: "byte list \<Rightarrow> byte \<Rightarrow> nat \<Rightarrow> nat \<Rightarrow> byte \<times> nat \<times> nat" where
  "skip_excode payload code index excode =
    (if code = EXCODE then
       (if index < length payload
        then skip_excode payload (payload ! index) (index + 1) (excode + 1)
        else (code, index, excode + 1))
     else (code, index, excode))"
  by pat_completeness auto
termination
  by (relation "measure (\<lambda>(payload, code, index, excode). length payload - index)") auto

declare skip_excode.simps [simp del]

text \<open>
  One iteration of the outer loop (lines 93-208), entered with \<open>index < len(payload)\<close>:
  \<open>Break\<close> is a \<open>break\<close>, \<open>Raise\<close> an exception that leaves \<open>parse_payload\<close>, \<open>Next\<close> the
  end of the body with the new index.
\<close>

datatype row_result = Break headset | Raise error headset | Next nat headset

definition parse_row :: "byte list \<Rightarrow> nat \<Rightarrow> headset \<Rightarrow> row_result" where
  "parse_row payload index h =
    (if \<not> index < length payload then Break h
     else
       (let code = payload ! index;
            index = index + 1;
            (code, index, excode) = skip_excode payload code index 0
        in if code < 0x80 then
             (if \<not> index < length payload then Break h
              else
                (let val = payload ! index;
                     index = index + 1
                 in Next index (dispatch_single code val h)))
           else
             (if \<not> index < length payload then Break h
              else
                (let vlength = payload ! index;
                     index = index + 1;
                     val = take (unat vlength) (drop index payload);
                     index = index + unat vlength
                 in case dispatch_multi code vlength val h of
                      Raised e h' \<Rightarrow> Raise e h'
                    | Returned h' \<Rightarrow> Next index h'))))"

text \<open>
  Lines 91-92: \<open>while index < len(payload)\<close>. The loop is defined without any
  assumption on its termination: \<open>None\<close> is a loop that never ends.
\<close>

partial_function (option) parse_loop :: "byte list \<Rightarrow> nat \<Rightarrow> headset \<Rightarrow> outcome option" where
  "parse_loop payload index h =
    (if index < length payload then
       (case parse_row payload index h of
          Break h' \<Rightarrow> Some (Returned h')
        | Raise e h' \<Rightarrow> Some (Raised e h')
        | Next index' h' \<Rightarrow> parse_loop payload index' h')
     else Some (Returned h))"

definition parse_payload :: "byte list \<Rightarrow> headset \<Rightarrow> outcome option" where
  "parse_payload payload h = parse_loop payload 0 h"

subsection \<open>\<open>run\<close>: the listener loop\<close>

text \<open>
  The dongle is the list of the bytes it will still deliver. The port is opened without
  a timeout, so \<open>s.read(n)\<close> gives exactly \<open>n\<close> bytes or never returns data: when
  fewer remain, the read ends with the failure of the port (\<open>None\<close>), which the
  \<open>except\<close> clauses of \<open>run\<close> turn into \<open>break\<close>.
\<close>

definition read :: "nat \<Rightarrow> byte list \<Rightarrow> (byte list \<times> byte list) option" where
  "read n s = (if n \<le> length s then Some (take n s, drop n s) else None)"

text \<open>\<open>int.from_bytes(bs, byteorder='big')\<close>.\<close>

definition from_bytes :: "byte list \<Rightarrow> int" where
  "from_bytes bs = foldl (\<lambda>acc b. acc * 256 + uint b) 0 bs"

text \<open>Lines 63-67: read length bytes until one is not 170.\<close>

function read_plength :: "byte list \<Rightarrow> (int \<times> byte list) option" where
  "read_plength s =
    (case read 1 s of
       None \<Rightarrow> None
     | Some (plength_byte, s') \<Rightarrow>
         (let plength = from_bytes plength_byte
          in if plength \<noteq> 170 then Some (plength, s') else read_plength s'))"
  by pat_completeness auto
termination
  by (relation "measure length") (auto simp: read_def split: if_splits)

declare read_plength.simps [simp del]

text \<open>Lines 75-77: the value \<open>val\<close> computed from the payload.\<close>

definition checksum :: "byte list \<Rightarrow> int" where
  "checksum payload =
    (let val = sum_list (map uint (butlast payload));
         val = val AND 0xff;
         val = NOT val AND 0xff
     in val)"

text \<open>
  How the thread ends: \<open>StreamError\<close> is the \<open>break\<close> of the \<open>except\<close> clauses,
  \<open>Uncaught e\<close> an exception of \<open>parse_payload\<close> that no clause of \<open>run\<close> catches
  (IndexError is neither an OSError nor a SerialException), \<open>Diverged\<close> a call of
  \<open>parse_payload\<close> that never returns.
\<close>

datatype exit = StreamError | Uncaught error | Diverged

text \<open>
  Lines 57-87: the loop of \<open>run\<close>, from a dongle \<open>s\<close>. The second argument is the list
  of the payloads passed to \<open>parse_payload\<close> so far. The test \<open>val == chksum\<close> is
  commented out in the source and replaced by \<open>if True\<close>, so \<open>val\<close> and \<open>chksum\<close> are
  computed and never used. The lines before the loop write DISCONNECT and toggle a
  setting of the port twice; they read nothing.
\<close>

function run :: "byte list \<Rightarrow> byte list list \<Rightarrow> headset \<Rightarrow> exit \<times> byte list list \<times> headset" where
  "run s parsed h =
    (case read 1 s of
       None \<Rightarrow> (StreamError, parsed, h)
     | Some (first_byte, s1) \<Rightarrow>
         if first_byte = [SYNC] then
           (case read 1 s1 of
              None \<Rightarrow> (StreamError, parsed, h)
            | Some (second_byte, s2) \<Rightarrow>
                if second_byte = [SYNC] then
                  (case read_plength s2 of
                     None \<Rightarrow> (StreamError, parsed, h)
                   | Some (plength, s3) \<Rightarrow>
                       if plength > 170 then run s3 parsed h
                       else
                         (case read (nat plength) s3 of
                            None \<Rightarrow> (StreamError, parsed, h)
                          | Some (payload, s4) \<Rightarrow>
                              (let val = checksum payload
                               in case read 1 s4 of
                                    None \<Rightarrow> (StreamError, parsed, h)
                                  | Some (chksum_byte, s5) \<Rightarrow>
                                      (let chksum = from_bytes chksum_byte
                                       in case parse_payload payload h of
                                            None \<Rightarrow> (Diverged, parsed @ [payload], h)
                                          | Some (Raised e h') \<Rightarrow>
                                              (Uncaught e, parsed @ [payload], h')
                                          | Some (Returned h') \<Rightarrow>
                                              run s5 (parsed @ [payload]) h'))))
                else run s2 parsed h)
         else run s1 parsed h)"
  by pat_completeness auto
termination
proof -
  have rl: "length s = n + length s'" if "read n s = Some (bs, s')" for n s bs s'
    using that by (auto simp: read_def split: if_splits)
  have pl: "length s' < length s" if "read_plength s = Some (n, s')" for s n s'
    using that
  proof (induction s rule: read_plength.induct)
    case (1 s)
    from "1.prems" obtain b t where r: "read 1 s = Some (b, t)"
      by (subst (asm) read_plength.simps) (auto split: option.splits)
    show ?case
    proof (cases "from_bytes b \<noteq> 170")
      case True
      with "1.prems" r have "s' = t"
        by (subst (asm) read_plength.simps) simp
      with r show ?thesis using rl [of 1 s b t] by simp
    next
      case False
      with "1.prems" r have "read_plength t = Some (n, s')"
        by (subst (asm) read_plength.simps) simp
      with "1.IH" [OF r refl] False have "length s' < length t" by simp
      with r show ?thesis using rl [of 1 s b t] by simp
    qed
  qed
  show ?thesis
    by (relation "measure (\<lambda>(s, parsed, h). length s)") (auto dest!: rl pl)
qed

declare run.simps [simp del]

subsection \<open>Inputs and observations used in the statements\<close>

text \<open>The headset that an outcome, or one iteration of the loop, leaves behind.\<close>

fun headset_of :: "outcome \<Rightarrow> headset" where
  "headset_of (Returned h) = h"
| "headset_of (Raised e h) = h"

fun row_headset :: "row_result \<Rightarrow> headset" where
  "row_headset (Break h) = h"
| "row_headset (Raise e h) = h"
| "row_headset (Next i h) = h"

text \<open>The handler invocations recorded when \<open>parse_payload\<close> is left.\<close>

definition trace :: "outcome \<Rightarrow> call list" where
  "trace r = calls (headset_of r)"

text \<open>One round of calls \<open>f(headset)\<close> over the list \<open>r\<close>.\<close>

definition entered :: "registry \<Rightarrow> headset \<Rightarrow> call list" where
  "entered r h = map (\<lambda>f. Call r f []) (handlers h r)"

text \<open>
  A packet on the wire: two SYNC bytes, the length of the payload, the payload and a
  trailing checksum byte. The length byte stands for the length when the payload has
  fewer than 170 bytes.
\<close>

definition frame :: "byte list \<Rightarrow> byte \<Rightarrow> byte list" where
  "frame payload chk = SYNC # SYNC # of_nat (length payload) # payload @ [chk]"


text \<open>A payload of POOR_SIGNAL rows, one for each value.\<close>

definition poor_signal_rows :: "byte list \<Rightarrow> byte list" where
  "poor_signal_rows vs = concat (map (\<lambda>v. [POOR_SIGNAL, v]) vs)"

text \<open>
  The specification of the poor-signal callbacks, in its own words: a row with the
  value \<open>v\<close>, met with the stored value \<open>old\<close>, fires poor-signal-entered when \<open>v > 0\<close>
  and \<open>old = 0\<close>, good-signal-restored when \<open>v = 0\<close> and \<open>old > 0\<close>, and nothing
  otherwise; \<open>v\<close> is the stored value for the next row. \<open>invocations\<close> turns each fired
  event into the calls of the handlers registered for it, in registration order.
\<close>

fun signal_edges :: "int \<Rightarrow> int list \<Rightarrow> (registry \<times> int) list" where
  "signal_edges old [] = []"
| "signal_edges old (v # vs) =
     (if v > 0 \<and> old = 0 then [(poor_signal_handlers, v)]
      else if v = 0 \<and> old > 0 then [(good_signal_handlers, v)]
      else []) @ signal_edges v vs"

definition invocations :: "headset \<Rightarrow> (registry \<times> int) list \<Rightarrow> call list" where
  "invocations h es = concat (map (\<lambda>(r, v). map (\<lambda>f. Call r f [IntArg v]) (handlers h r)) es)"

text \<open>Python's truth value of the first byte of a value: false for an empty value.\<close>

definition first_byte_truthy :: "byte list \<Rightarrow> bool" where
  "first_byte_truthy v = (case v of [] \<Rightarrow> False | b # _ \<Rightarrow> b \<noteq> 0)"

section \<open>Properties\<close>

subsection \<open>One data row\<close>

lemma skip_excode_other:
  "code \<noteq> EXCODE \<Longrightarrow> skip_excode payload code index excode = (code, index, excode)"
  by (subst skip_excode.simps) simp

lemma skip_excode_index:
  "skip_excode payload code index excode = (code', index', excode') \<Longrightarrow> index \<le> index'"
proof (induction payload code index excode rule: skip_excode.induct)
  case (1 payload code index excode)
  show ?case
  proof (cases "code = EXCODE \<and> index < length payload")
    case True
    with "1.prems"
    have "skip_excode payload (payload ! index) (index + 1) (excode + 1) = (code', index', excode')"
      by (subst (asm) skip_excode.simps) simp
    with "1.IH" True have "index + 1 \<le> index'" by simp
    then show ?thesis by simp
  next
    case False
    with "1.prems" have "index' = index"
      by (subst (asm) skip_excode.simps) (auto split: if_splits)
    then show ?thesis by simp
  qed
qed

lemma parse_row_Next_index:
  assumes "parse_row payload index h = Next index' h'"
  shows "index < index'"
proof -
  obtain c j e where s: "skip_excode payload (payload ! index) (index + 1) 0 = (c, j, e)"
    by (cases "skip_excode payload (payload ! index) (index + 1) 0") auto
  from skip_excode_index [OF s] have "index + 1 \<le> j" .
  with assms s show ?thesis
    by (auto simp: parse_row_def Let_def split: if_splits outcome.splits)
qed

lemma parse_row_single:
  assumes "code < 0x80" "code \<noteq> EXCODE"
  shows "parse_row (pre @ code # v # post) (length pre) h =
    Next (length pre + 2) (dispatch_single code v h)"
  using assms by (simp add: parse_row_def skip_excode_other nth_append)

lemma parse_row_multi:
  assumes "\<not> code < 0x80" "code \<noteq> EXCODE" "length v = unat vlength"
  shows "parse_row (pre @ code # vlength # v @ post) (length pre) h =
    (case dispatch_multi code vlength v h of
       Raised e h' \<Rightarrow> Raise e h'
     | Returned h' \<Rightarrow> Next (length pre + 2 + length v) h')"
  using assms by (simp add: parse_row_def skip_excode_other nth_append split: outcome.split)

subsection \<open>The loop of \<open>parse_payload\<close>\<close>

lemma parse_loop_total: "\<exists>r. parse_loop payload index h = Some r"
proof (induction "length payload - index" arbitrary: index h rule: less_induct)
  case less
  show ?case
  proof (cases "index < length payload")
    case False
    then show ?thesis by (subst parse_loop.simps) simp
  next
    case True
    show ?thesis
    proof (cases "parse_row payload index h")
      case (Break h')
      with True show ?thesis by (subst parse_loop.simps) simp
    next
      case (Raise e h')
      with True show ?thesis by (subst parse_loop.simps) simp
    next
      case (Next index' h')
      from parse_row_Next_index [OF Next] True
      have "length payload - index' < length payload - index" by arith
      from less [OF this] obtain r where "parse_loop payload index' h' = Some r" by blast
      with True Next show ?thesis by (subst parse_loop.simps) simp
    qed
  qed
qed

lemma parse_loop_end:
  "\<not> index < length payload \<Longrightarrow> parse_loop payload index h = Some (Returned h)"
  by (subst parse_loop.simps) simp

lemma parse_loop_single:
  assumes "code < 0x80" "code \<noteq> EXCODE"
  shows "parse_loop (pre @ code # v # post) (length pre) h =
         parse_loop (pre @ code # v # post) (length pre + 2) (dispatch_single code v h)"
  by (subst parse_loop.simps) (simp add: parse_row_single [OF assms])

lemma parse_loop_multi:
  assumes "\<not> code < 0x80" "code \<noteq> EXCODE" "length v = unat vlength"
    and "dispatch_multi code vlength v h = Returned h'"
  shows "parse_loop (pre @ code # vlength # v @ post) (length pre) h =
         parse_loop (pre @ code # vlength # v @ post) (length pre + 2 + length v) h'"
  by (subst parse_loop.simps) (simp add: parse_row_multi [OF assms(1-3)] assms(4))

lemma parse_payload_attention:
  "parse_payload [ATTENTION, 0x32] h =
    Some (Returned (run_handlers attention_handlers [IntArg 50] (h\<lparr>attention := 50\<rparr>)))"
  by (simp add: parse_payload_def parse_loop.simps parse_row_def skip_excode_other
      dispatch_single_def)


subsection \<open>The listener loop\<close>

lemma read1: "read (Suc 0) (b # s) = Some ([b], s)"
  by (simp add: read_def)

lemma read_append: "length p = n \<Longrightarrow> read n (p @ s) = Some (p, s)"
  by (simp add: read_def)

lemma from_bytes1: "from_bytes [b] = uint b"
  by (simp add: from_bytes_def)


lemma read_plength_other: "uint b \<noteq> 170 \<Longrightarrow> read_plength (b # s) = Some (uint b, s)"
  by (subst read_plength.simps) (simp add: read1 from_bytes1)

lemma run_Nil: "run [] parsed h = (StreamError, parsed, h)"
  by (subst run.simps) (simp add: read_def)




lemma run_packet:
  assumes "length payload = unat len" "uint len < 170"
  shows "run (SYNC # SYNC # len # payload @ chk # s) parsed h =
    (case parse_payload payload h of
       None \<Rightarrow> (Diverged, parsed @ [payload], h)
     | Some (Raised e h') \<Rightarrow> (Uncaught e, parsed @ [payload], h')
     | Some (Returned h') \<Rightarrow> run s (parsed @ [payload]) h')"
proof -
  from assms(2) have l: "uint len \<noteq> 170" "\<not> uint len > 170" by simp_all
  from assms(1) have n: "length payload = nat (uint len)" by simp
  show ?thesis
    by (subst run.simps)
      (simp add: read1 read_plength_other [OF l(1)] l(2) read_append [OF n] Let_def
        del: unat_eq_nat_uint nat_uint_eq)
qed

lemma frame_len:
  assumes "length payload < 170"
  shows "unat (of_nat (length payload) :: byte) = length payload"
    and "uint (of_nat (length payload) :: byte) < 170"
proof -
  from assms show u: "unat (of_nat (length payload) :: byte) = length payload"
    by (simp add: unat_of_nat take_bit_nat_eq_self)
  have "uint (of_nat (length payload) :: byte) = int (unat (of_nat (length payload) :: byte))"
    by simp
  with u assms show "uint (of_nat (length payload) :: byte) < 170" by simp
qed

lemma run_frame:
  assumes "length payload < 170"
  shows "run (frame payload chk @ s) parsed h =
    (case parse_payload payload h of
       None \<Rightarrow> (Diverged, parsed @ [payload], h)
     | Some (Raised e h') \<Rightarrow> (Uncaught e, parsed @ [payload], h')
     | Some (Returned h') \<Rightarrow> run s (parsed @ [payload]) h')"
  using run_packet [OF frame_len(1) [OF assms, symmetric] frame_len(2) [OF assms], of chk s parsed h]
  by (simp add: frame_def)



subsection \<open>The checksum\<close>

text \<open>
  Claim C1. The claim is that the checksum computed over a payload is the complement
  of the sum of all its bytes, 0xC9 for the payload 04 32. The source sums
  \<open>payload[:-1]\<close>, the payload without its last byte, although the checksum byte is read
  from the dongle after the payload and is no part of it: for the payload 04 32 it
  computes 0xFB, and the value does not depend on the last byte at all.
\<close>

theorem checksum_drops_last_byte:
  "checksum [ATTENTION, 0x32] = 0xfb
   \<and> checksum [ATTENTION, 0x32] \<noteq> 0xc9
   \<and> checksum (payload @ [b]) = checksum (payload @ [b'])"
  by (simp add: checksum_def)

text \<open>
  Claim C4. A packet whose trailing byte differs from the computed value is handled
  exactly as the same packet with a matching trailing byte: its payload is passed to
  \<open>parse_payload\<close> and the loop goes on behind the packet.
\<close>

theorem checksum_never_suppresses:
  assumes "length payload < 170" and "uint chk \<noteq> checksum payload"
  shows "run (frame payload chk @ s) parsed h =
           run (frame payload (word_of_int (checksum payload)) @ s) parsed h
       \<and> run (frame payload chk @ s) parsed h =
           (case parse_payload payload h of
              None \<Rightarrow> (Diverged, parsed @ [payload], h)
            | Some (Raised e h') \<Rightarrow> (Uncaught e, parsed @ [payload], h')
            | Some (Returned h') \<Rightarrow> run s (parsed @ [payload]) h')"
  by (simp only: run_frame [OF assms(1)] simp_thms)

theorem checksum_never_suppresses_witness:
  "length [ATTENTION, 0x32 :: byte] < 170 \<and> uint (0 :: byte) \<noteq> checksum [ATTENTION, 0x32]
   \<and> run (frame [ATTENTION, 0x32] 0 @ []) [] (init None) =
       run (frame [ATTENTION, 0x32] (word_of_int (checksum [ATTENTION, 0x32])) @ []) []
         (init None)
   \<and> run (frame [ATTENTION, 0x32] 0 @ []) [] (init None) =
        (StreamError, [[ATTENTION, 0x32]], (init None)\<lparr>attention := 50\<rparr>)"
proof -
  have 1: "length [ATTENTION, 0x32 :: byte] < 170" by simp
  have 2: "uint (0 :: byte) \<noteq> checksum [ATTENTION, 0x32]" by (simp add: checksum_def)
  note t = checksum_never_suppresses [OF 1 2, of "[]" "[]" "init None"]
  have e: "run (frame [ATTENTION, 0x32] 0 @ []) [] (init None) =
        (StreamError, [[ATTENTION, 0x32]], (init None)\<lparr>attention := 50\<rparr>)"
    using run_frame [of "[ATTENTION, 0x32]" 0 "[]" "[]" "init None"]
    by (simp add: parse_payload_attention run_Nil run_handlers_def init_def)
  from t 1 2 e show ?thesis by blast
qed

subsection \<open>Truncated payloads\<close>

lemma dispatch_multi_connected:
  "dispatch_multi HEADSET_CONNECTED vlength v h =
    Returned (if status h \<noteq> Some STATUS_CONNECTED
      then run_handlers headset_connected_handlers []
             (h\<lparr>status := Some STATUS_CONNECTED, headset_id := Some (hex v)\<rparr>)
      else h\<lparr>status := Some STATUS_CONNECTED, headset_id := Some (hex v)\<rparr>)"
  by (simp add: dispatch_multi_def dispatch_raw_def dispatch_status_def Let_def)

text \<open>
  Claim C2. The claim is that a payload too short for a read stops the parsing of that
  payload silently and leaves later payloads unaffected. The reads of the code byte, of
  the value byte and of \<open>vlength\<close> are guarded by \<open>try\<close>, but the value bytes are taken
  with a slice, which never raises and gives a shorter value. For the payload 80 02 01
  (RAW_VALUE, two bytes declared, one present) \<open>value[1]\<close> then raises IndexError out
  of \<open>parse_payload\<close>; \<open>run\<close> does not catch it, so the listener ends and the packet
  that follows is never parsed. For the other multi-byte codes the truncated row takes
  effect with the shorter value: D0 02 01 connects the headset with the identifier 01.
\<close>

theorem truncated_raw_value_raises:
  "parse_payload [RAW_VALUE, 2, 1] h = Some (Raised IndexError h)
   \<and> run (frame [RAW_VALUE, 2, 1] c1 @ frame [ATTENTION, 0x32] c2) [] h
       = (Uncaught IndexError, [[RAW_VALUE, 2, 1]], h)
   \<and> parse_payload [HEADSET_CONNECTED, 2, 1] (init None)
       = Some (Returned ((init None)\<lparr>status := Some STATUS_CONNECTED, headset_id := Some ''01''\<rparr>))"
proof -
  have p: "parse_payload [RAW_VALUE, 2, 1] h = Some (Raised IndexError h)"
    by (simp add: parse_payload_def parse_loop.simps parse_row_def skip_excode_other
        dispatch_multi_def dispatch_raw_def)
  have r: "run (frame [RAW_VALUE, 2, 1] c1 @ frame [ATTENTION, 0x32] c2) [] h
       = (Uncaught IndexError, [[RAW_VALUE, 2, 1]], h)"
    by (simp add: run_frame p)
  have q: "parse_payload [HEADSET_CONNECTED, 2, 1] (init None)
       = Some (Returned ((init None)\<lparr>status := Some STATUS_CONNECTED, headset_id := Some ''01''\<rparr>))"
    by (simp add: parse_payload_def parse_loop.simps parse_row_def skip_excode_other
        dispatch_multi_connected run_handlers_def init_def hex_def hex_digit_def)
  from p r q show ?thesis by simp
qed

subsection \<open>Resynchronization\<close>




subsection \<open>Poor signal\<close>

lemma dispatch_poor_signal:
  "poor_signal (dispatch_single POOR_SIGNAL v h) = uint v"
  "handlers (dispatch_single POOR_SIGNAL v h) = handlers h"
  "calls (dispatch_single POOR_SIGNAL v h) =
     calls h @ invocations h (signal_edges (poor_signal h) [uint v])"
proof -
  have "0 < uint v \<or> uint v = 0" using uint_ge_0 [of v] by arith
  then show "calls (dispatch_single POOR_SIGNAL v h) =
     calls h @ invocations h (signal_edges (poor_signal h) [uint v])"
    by (auto simp: dispatch_single_def run_handlers_def invocations_def Let_def)
qed (simp_all add: dispatch_single_def run_handlers_def Let_def)

lemma invocations_append: "invocations h (xs @ ys) = invocations h xs @ invocations h ys"
  by (simp add: invocations_def)

lemma invocations_handlers: "handlers h' = handlers h \<Longrightarrow> invocations h' es = invocations h es"
  by (simp add: invocations_def)

lemma signal_edges_Cons: "signal_edges old (v # vs) = signal_edges old [v] @ signal_edges v vs"
  by simp

lemma parse_loop_poor_signal_rows:
  "\<exists>h'. parse_loop (pre @ poor_signal_rows vs) (length pre) h = Some (Returned h')
     \<and> handlers h' = handlers h
     \<and> calls h' = calls h @ invocations h (signal_edges (poor_signal h) (map uint vs))"
proof (induction vs arbitrary: pre h)
  case Nil
  show ?case by (simp add: poor_signal_rows_def parse_loop_end invocations_def)
next
  case (Cons v vs)
  let ?h = "dispatch_single POOR_SIGNAL v h"
  let ?p = "pre @ poor_signal_rows (v # vs)"
  have p: "?p = (pre @ [POOR_SIGNAL, v]) @ poor_signal_rows vs"
    by (simp add: poor_signal_rows_def)
  have "parse_loop ?p (length pre) h = parse_loop ?p (length pre + 2) ?h"
    using parse_loop_single [of POOR_SIGNAL pre v "poor_signal_rows vs" h]
    by (simp add: poor_signal_rows_def)
  then have step: "parse_loop ?p (length pre) h =
      parse_loop ((pre @ [POOR_SIGNAL, v]) @ poor_signal_rows vs)
        (length (pre @ [POOR_SIGNAL, v])) ?h"
    by (simp only: p) simp
  from Cons.IH [of "pre @ [POOR_SIGNAL, v]" ?h] obtain h' where
    h': "parse_loop ((pre @ [POOR_SIGNAL, v]) @ poor_signal_rows vs)
           (length (pre @ [POOR_SIGNAL, v])) ?h = Some (Returned h')"
      "handlers h' = handlers ?h"
      "calls h' = calls ?h @ invocations ?h (signal_edges (poor_signal ?h) (map uint vs))"
    by blast
  have "calls h' = calls h @ invocations h (signal_edges (poor_signal h) (map uint (v # vs)))"
    using h'(3) invocations_handlers [OF dispatch_poor_signal(2) [of v h]]
    by (simp only: dispatch_poor_signal list.map signal_edges_Cons [of _ "uint v" "map uint vs"]
        invocations_append append_assoc)
  with step h'(1,2) show ?case by (simp add: dispatch_poor_signal(2))
qed

text \<open>
  Claim C5, as stated, fails for the particular sequence: a new headset stores the
  poor-signal level 255, so the first of the rows 0, 0, 5, 5, 0 already crosses from
  non-zero to 0. With one handler registered in each list, good-signal-restored is
  invoked twice (rows 1 and 5) and poor-signal-entered once (row 3).
\<close>

theorem poor_signal_fresh_headset_counterexample:
  "map_option trace (parse_payload (poor_signal_rows [0, 0, 5, 5, 0])
      (register good_signal_handlers 1 (register poor_signal_handlers 0 (init None))))
   = Some [Call good_signal_handlers 1 [IntArg 0], Call poor_signal_handlers 0 [IntArg 5],
           Call good_signal_handlers 1 [IntArg 0]]"
  by (simp add: poor_signal_rows_def parse_payload_def parse_loop.simps parse_row_def
      skip_excode_other dispatch_single_def run_handlers_def register_def init_def trace_def)

text \<open>
  Claim C5, amended. For every sequence of POOR_SIGNAL rows and every headset, the
  handlers invoked are exactly those that the specification's edge rule fires, row by
  row from the stored level: poor-signal-entered where the level goes from 0 to
  non-zero, good-signal-restored where it goes from non-zero to 0. In particular, on a
  headset whose stored level is 0, the rows 0, 0, 5, 5, 0 invoke the poor-signal
  handlers once, with 5, and then the good-signal handlers once, with 0.
\<close>

theorem poor_signal_edge_triggered:
  "(\<exists>h'. parse_payload (poor_signal_rows vs) h = Some (Returned h')
      \<and> calls h' = calls h @ invocations h (signal_edges (poor_signal h) (map uint vs)))
   \<and> (poor_signal h = 0 \<longrightarrow>
       (\<exists>h'. parse_payload (poor_signal_rows [0, 0, 5, 5, 0]) h = Some (Returned h')
          \<and> calls h' = calls h
               @ map (\<lambda>f. Call poor_signal_handlers f [IntArg 5]) (handlers h poor_signal_handlers)
               @ map (\<lambda>f. Call good_signal_handlers f [IntArg 0]) (handlers h good_signal_handlers)))"
proof (intro conjI impI)
  from parse_loop_poor_signal_rows [of "[]" vs h]
  show "\<exists>h'. parse_payload (poor_signal_rows vs) h = Some (Returned h')
      \<and> calls h' = calls h @ invocations h (signal_edges (poor_signal h) (map uint vs))"
    by (auto simp: parse_payload_def)
next
  assume z: "poor_signal h = 0"
  from parse_loop_poor_signal_rows [of "[]" "[0, 0, 5, 5, 0]" h] z
  show "\<exists>h'. parse_payload (poor_signal_rows [0, 0, 5, 5, 0]) h = Some (Returned h')
          \<and> calls h' = calls h
               @ map (\<lambda>f. Call poor_signal_handlers f [IntArg 5]) (handlers h poor_signal_handlers)
               @ map (\<lambda>f. Call good_signal_handlers f [IntArg 0]) (handlers h good_signal_handlers)"
    by (auto simp: parse_payload_def invocations_def)
qed

theorem poor_signal_edge_triggered_witness:
  "poor_signal (register good_signal_handlers 1 (register poor_signal_handlers 0
      ((init None)\<lparr>poor_signal := 0\<rparr>))) = 0
   \<and> (\<exists>h'. parse_payload (poor_signal_rows [0, 0, 5, 5, 0])
          (register good_signal_handlers 1 (register poor_signal_handlers 0
            ((init None)\<lparr>poor_signal := 0\<rparr>))) = Some (Returned h')
        \<and> calls h' = [Call poor_signal_handlers 0 [IntArg 5], Call good_signal_handlers 1 [IntArg 0]])"
proof -
  let ?h = "register good_signal_handlers 1 (register poor_signal_handlers 0
      ((init None)\<lparr>poor_signal := 0\<rparr>))"
  have z: "poor_signal ?h = 0" by (simp add: register_def init_def)
  have c: "calls ?h = []" "handlers ?h poor_signal_handlers = [0]"
    "handlers ?h good_signal_handlers = [1]"
    by (simp_all add: register_def init_def)
  from poor_signal_edge_triggered [of "[]" ?h] z obtain h' where
    h': "parse_payload (poor_signal_rows [0, 0, 5, 5, 0]) ?h = Some (Returned h')"
      "calls h' = calls ?h
         @ map (\<lambda>f. Call poor_signal_handlers f [IntArg 5]) (handlers ?h poor_signal_handlers)
         @ map (\<lambda>f. Call good_signal_handlers f [IntArg 0]) (handlers ?h good_signal_handlers)"
    by blast
  from h'(2) have "calls h' = [Call poor_signal_handlers 0 [IntArg 5], Call good_signal_handlers 1 [IntArg 0]]"
    by (simp only: c) simp
  with h'(1) z show ?thesis by blast
qed

subsection \<open>The raw value\<close>

lemma uint_cat16: "uint (word_cat (v0::byte) (v1::byte) :: 16 word) = uint v0 * 256 + uint v1"
proof -
  have b0: "0 \<le> uint v0" "uint v0 < 256" using uint_lt2p [of v0] by simp_all
  have b1: "0 \<le> uint v1" "uint v1 < 256" using uint_lt2p [of v1] by simp_all
  have "uint (word_cat v0 v1 :: 16 word) = (concat_bit 8 (uint v1) (uint v0)) mod 2 ^ 16"
    by (simp add: word_cat_eq' uint_word_of_int)
  also have "concat_bit 8 (uint v1) (uint v0) = uint v1 mod 2 ^ 8 + uint v0 * 2 ^ 8"
    by (simp add: concat_bit_eq take_bit_eq_mod push_bit_eq_mult)
  also have "\<dots> = uint v0 * 256 + uint v1" using b1 by simp
  also have "\<dots> mod 2 ^ 16 = uint v0 * 256 + uint v1" using b0 b1 by simp
  finally show ?thesis .
qed

lemma sint_cat16:
  "sint (word_cat (v0::byte) (v1::byte) :: 16 word) =
    (if uint v0 * 256 + uint v1 \<ge> 32768 then uint v0 * 256 + uint v1 - 65536
     else uint v0 * 256 + uint v1)"
proof -
  have b0: "0 \<le> uint v0" "uint v0 < 256" using uint_lt2p [of v0] by simp_all
  have b1: "0 \<le> uint v1" "uint v1 < 256" using uint_lt2p [of v1] by simp_all
  define r where "r = uint v0 * 256 + uint v1"
  have r: "0 \<le> r" "r < 65536" using b0 b1 by (simp_all add: r_def)
  have "sint (word_cat v0 v1 :: 16 word) = signed_take_bit 15 r"
    by (simp add: sint_uint uint_cat16 r_def)
  also have "\<dots> = (r + 2 ^ 15) mod 2 ^ 16 - 2 ^ 15"
    by (simp add: signed_take_bit_eq_take_bit_shift take_bit_eq_mod)
  also have "\<dots> = (if r \<ge> 32768 then r - 65536 else r)"
  proof (cases "r \<ge> 32768")
    case True
    have "((r - 32768) + 65536) mod 65536 = (r - 32768) mod 65536" by (rule mod_add_self2)
    moreover have "(r - 32768) mod 65536 = r - 32768" using r True by simp
    moreover have "(r - 32768) + 65536 = r + 2 ^ 15" by simp
    ultimately have "(r + 2 ^ 15) mod 2 ^ 16 = r - 32768" by simp
    with True show ?thesis by simp
  next
    case False
    then have "(r + 2 ^ 15) mod 2 ^ 16 = r + 32768" using r by simp
    with False show ?thesis by simp
  qed
  finally show ?thesis by (simp add: r_def)
qed

lemma dispatch_multi_raw:
  "dispatch_multi RAW_VALUE vlength (v0 # v1 # vs) h =
     Returned (run_handlers raw_value_handlers [IntArg (sint (word_cat v0 v1 :: 16 word))]
       (h\<lparr>raw_value := sint (word_cat v0 v1 :: 16 word)\<rparr>))"
  by (simp add: dispatch_multi_def dispatch_raw_def dispatch_status_def Let_def sint_cat16)

text \<open>
  Claim C6. A RAW_VALUE row with at least two value bytes returns normally and stores
  the value of the 16-bit two's complement word made of the first two bytes, high byte
  first: \<open>v0 * 256 + v1\<close>, minus 65536 when that is 32768 or more. The stored value lies
  between -32768 and 32767. The rows 7F FF, 80 00 and 00 01 store 32767, -32768 and 1.
\<close>

theorem raw_value_signed16:
  "dispatch_multi RAW_VALUE vlength (v0 # v1 # vs) h =
     Returned (run_handlers raw_value_handlers [IntArg (sint (word_cat v0 v1 :: 16 word))]
       (h\<lparr>raw_value := sint (word_cat v0 v1 :: 16 word)\<rparr>))
   \<and> raw_value (headset_of (dispatch_multi RAW_VALUE vlength (v0 # v1 # vs) h)) =
       (if uint v0 * 256 + uint v1 \<ge> 32768 then uint v0 * 256 + uint v1 - 65536
        else uint v0 * 256 + uint v1)
   \<and> - 32768 \<le> raw_value (headset_of (dispatch_multi RAW_VALUE vlength (v0 # v1 # vs) h))
   \<and> raw_value (headset_of (dispatch_multi RAW_VALUE vlength (v0 # v1 # vs) h)) \<le> 32767
   \<and> parse_payload [RAW_VALUE, 2, 0x7f, 0xff] h =
       Some (Returned (run_handlers raw_value_handlers [IntArg 32767] (h\<lparr>raw_value := 32767\<rparr>)))
   \<and> parse_payload [RAW_VALUE, 2, 0x80, 0x00] h =
       Some (Returned (run_handlers raw_value_handlers [IntArg (- 32768)]
         (h\<lparr>raw_value := - 32768\<rparr>)))
   \<and> parse_payload [RAW_VALUE, 2, 0x00, 0x01] h =
       Some (Returned (run_handlers raw_value_handlers [IntArg 1] (h\<lparr>raw_value := 1\<rparr>)))"
proof -
  let ?w = "word_cat v0 v1 :: 16 word"
  have d: "dispatch_multi RAW_VALUE vlength (v0 # v1 # vs) h =
     Returned (run_handlers raw_value_handlers [IntArg (sint ?w)] (h\<lparr>raw_value := sint ?w\<rparr>))"
    by (rule dispatch_multi_raw)
  have r: "raw_value (headset_of (dispatch_multi RAW_VALUE vlength (v0 # v1 # vs) h)) = sint ?w"
    by (simp add: d run_handlers_def)
  have lo: "- 32768 \<le> sint ?w" using sint_ge [of ?w] by simp
  have hi: "sint ?w \<le> 32767" using sint_lt [of ?w] by simp
  have e1: "parse_payload [RAW_VALUE, 2, 0x7f, 0xff] h =
       Some (Returned (run_handlers raw_value_handlers [IntArg 32767] (h\<lparr>raw_value := 32767\<rparr>)))"
    by (simp add: parse_payload_def parse_loop.simps parse_row_def skip_excode_other
        dispatch_multi_def dispatch_raw_def dispatch_status_def)
  have e2: "parse_payload [RAW_VALUE, 2, 0x80, 0x00] h =
       Some (Returned (run_handlers raw_value_handlers [IntArg (- 32768)]
         (h\<lparr>raw_value := - 32768\<rparr>)))"
    by (simp add: parse_payload_def parse_loop.simps parse_row_def skip_excode_other
        dispatch_multi_def dispatch_raw_def dispatch_status_def)
  have e3: "parse_payload [RAW_VALUE, 2, 0x00, 0x01] h =
       Some (Returned (run_handlers raw_value_handlers [IntArg 1] (h\<lparr>raw_value := 1\<rparr>)))"
    by (simp add: parse_payload_def parse_loop.simps parse_row_def skip_excode_other
        dispatch_multi_def dispatch_raw_def dispatch_status_def)
  from d r lo hi e1 e2 e3 show ?thesis by (simp only: sint_cat16 simp_thms)
qed

subsection \<open>The connection status\<close>

lemma dispatch_multi_standby_scan:
  "dispatch_multi STANDBY_SCAN vlength v h =
    Returned (if first_byte_truthy v
      then (if status h \<noteq> Some STATUS_SCANNING
            then run_handlers scanning_handlers [] (h\<lparr>status := Some STATUS_SCANNING\<rparr>)
            else h\<lparr>status := Some STATUS_SCANNING\<rparr>)
      else (if status h \<noteq> Some STATUS_STANDBY
            then run_handlers standby_handlers [] (h\<lparr>status := Some STATUS_STANDBY\<rparr>)
            else h\<lparr>status := Some STATUS_STANDBY\<rparr>))"
  by (cases v) (simp_all add: dispatch_multi_def dispatch_raw_def dispatch_status_def Let_def
      first_byte_truthy_def)

lemma scan_rows_1:
  assumes "status h \<noteq> Some STATUS_SCANNING"
  shows "map_option trace (parse_payload [STANDBY_SCAN, 1, 1] h) =
     Some (calls h @ entered scanning_handlers h)"
  using assms
  by (simp add: parse_payload_def parse_loop.simps parse_row_def skip_excode_other
      dispatch_multi_standby_scan first_byte_truthy_def run_handlers_def trace_def entered_def)

lemma scan_rows_2:
  assumes "status h \<noteq> Some STATUS_SCANNING"
  shows "map_option trace (parse_payload [STANDBY_SCAN, 1, 1, STANDBY_SCAN, 1, 1] h) =
     Some (calls h @ entered scanning_handlers h)"
  using assms
  by (simp add: parse_payload_def parse_loop.simps parse_row_def skip_excode_other
      dispatch_multi_standby_scan first_byte_truthy_def run_handlers_def trace_def entered_def)

lemma scan_rows_3:
  assumes "status h \<noteq> Some STATUS_SCANNING"
  shows "map_option trace
      (parse_payload [STANDBY_SCAN, 1, 1, STANDBY_SCAN, 1, 1, STANDBY_SCAN, 1, 0] h) =
     Some (calls h @ entered scanning_handlers h @ entered standby_handlers h)"
  using assms
  by (simp add: parse_payload_def parse_loop.simps parse_row_def skip_excode_other
      dispatch_multi_standby_scan first_byte_truthy_def run_handlers_def trace_def entered_def)

lemma scan_rows_4:
  assumes "status h \<noteq> Some STATUS_SCANNING"
  shows "map_option trace (parse_payload
      [STANDBY_SCAN, 1, 1, STANDBY_SCAN, 1, 1, STANDBY_SCAN, 1, 0, STANDBY_SCAN, 1, 1] h) =
     Some (calls h @ entered scanning_handlers h @ entered standby_handlers h
            @ entered scanning_handlers h)"
  using assms
  by (simp add: parse_payload_def parse_loop.simps parse_row_def skip_excode_other
      dispatch_multi_standby_scan first_byte_truthy_def run_handlers_def trace_def entered_def)

text \<open>
  Claim C7, as stated, fails for the particular rows: the status persists from one
  payload to the next, and on a headset that is already scanning the first of the rows
  with the values 1, 1, 0, 1 changes nothing. With one handler registered in each list,
  no handler is invoked at row 1, and after the four rows the calls are standby-entered
  (row 3) and scanning-entered (row 4): scanning-entered fires at row 4 only.
\<close>

theorem standby_scan_already_scanning_counterexample:
  "map_option trace (parse_payload [STANDBY_SCAN, 1, 1]
      ((register standby_handlers 1 (register scanning_handlers 0 (init None)))
         \<lparr>status := Some STATUS_SCANNING\<rparr>)) = Some []
   \<and> map_option trace (parse_payload
        [STANDBY_SCAN, 1, 1, STANDBY_SCAN, 1, 1, STANDBY_SCAN, 1, 0, STANDBY_SCAN, 1, 1]
        ((register standby_handlers 1 (register scanning_handlers 0 (init None)))
           \<lparr>status := Some STATUS_SCANNING\<rparr>)) =
      Some [Call standby_handlers 1 [], Call scanning_handlers 0 []]"
  by (simp add: parse_payload_def parse_loop.simps parse_row_def skip_excode_other
      dispatch_multi_standby_scan first_byte_truthy_def run_handlers_def trace_def
      register_def init_def)

text \<open>
  Claim C7, amended. A STANDBY_SCAN row returns normally and sets the status to
  scanning when the first value byte is truthy, to standby otherwise (also for an empty
  value); the scanning or standby handlers are invoked exactly when the status has
  changed. In particular, on a headset whose status is not scanning (a new headset has
  no status), the rows with the values 1, 1, 0, 1 invoke the scanning handlers at row 1,
  nothing at row 2, the standby handlers at row 3 and the scanning handlers again at
  row 4: the four equations give the calls recorded after 1, 2, 3 and 4 rows.
\<close>

theorem standby_scan_edge_triggered:
  "(\<exists>h'. dispatch_multi STANDBY_SCAN vlength v h = Returned h'
      \<and> status h' = Some (if first_byte_truthy v then STATUS_SCANNING else STATUS_STANDBY)
      \<and> calls h' = calls h @
           (if status h' = status h then []
            else entered (if first_byte_truthy v then scanning_handlers else standby_handlers) h))
   \<and> (status h \<noteq> Some STATUS_SCANNING \<longrightarrow>
         map_option trace (parse_payload [STANDBY_SCAN, 1, 1] h) =
           Some (calls h @ entered scanning_handlers h)
       \<and> map_option trace (parse_payload [STANDBY_SCAN, 1, 1, STANDBY_SCAN, 1, 1] h) =
           Some (calls h @ entered scanning_handlers h)
       \<and> map_option trace (parse_payload
             [STANDBY_SCAN, 1, 1, STANDBY_SCAN, 1, 1, STANDBY_SCAN, 1, 0] h) =
           Some (calls h @ entered scanning_handlers h @ entered standby_handlers h)
       \<and> map_option trace (parse_payload
             [STANDBY_SCAN, 1, 1, STANDBY_SCAN, 1, 1, STANDBY_SCAN, 1, 0, STANDBY_SCAN, 1, 1] h) =
           Some (calls h @ entered scanning_handlers h @ entered standby_handlers h
                  @ entered scanning_handlers h))"
proof (intro conjI impI)
  show "\<exists>h'. dispatch_multi STANDBY_SCAN vlength v h = Returned h'
      \<and> status h' = Some (if first_byte_truthy v then STATUS_SCANNING else STATUS_STANDBY)
      \<and> calls h' = calls h @
           (if status h' = status h then []
            else entered (if first_byte_truthy v then scanning_handlers else standby_handlers) h)"
    by (auto simp: dispatch_multi_standby_scan run_handlers_def entered_def)
qed (erule scan_rows_1 scan_rows_2 scan_rows_3 scan_rows_4)+

theorem standby_scan_edge_triggered_witness:
  "status (register standby_handlers 1 (register scanning_handlers 0 (init None)))
     \<noteq> Some STATUS_SCANNING
   \<and> map_option trace (parse_payload
        [STANDBY_SCAN, 1, 1, STANDBY_SCAN, 1, 1, STANDBY_SCAN, 1, 0, STANDBY_SCAN, 1, 1]
        (register standby_handlers 1 (register scanning_handlers 0 (init None)))) =
      Some [Call scanning_handlers 0 [], Call standby_handlers 1 [], Call scanning_handlers 0 []]"
proof -
  let ?h = "register standby_handlers 1 (register scanning_handlers 0 (init None))"
  have n: "status ?h \<noteq> Some STATUS_SCANNING" by (simp add: register_def init_def)
  have c: "calls ?h = []" "entered scanning_handlers ?h = [Call scanning_handlers 0 []]"
    "entered standby_handlers ?h = [Call standby_handlers 1 []]"
    by (simp_all add: register_def init_def entered_def)
  from standby_scan_edge_triggered [of 0 "[]" ?h] n
  have "map_option trace (parse_payload
        [STANDBY_SCAN, 1, 1, STANDBY_SCAN, 1, 1, STANDBY_SCAN, 1, 0, STANDBY_SCAN, 1, 1] ?h) =
      Some (calls ?h @ entered scanning_handlers ?h @ entered standby_handlers ?h
             @ entered scanning_handlers ?h)"
    by blast
  then have "map_option trace (parse_payload
        [STANDBY_SCAN, 1, 1, STANDBY_SCAN, 1, 1, STANDBY_SCAN, 1, 0, STANDBY_SCAN, 1, 1] ?h) =
      Some [Call scanning_handlers 0 [], Call standby_handlers 1 [], Call scanning_handlers 0 []]"
    by (simp only: c) simp
  with n show ?thesis by blast
qed

lemma parse_two_connected:
  assumes "length v = unat vlength" "length v' = unat vlength'"
    and "dispatch_multi HEADSET_CONNECTED vlength v h = Returned h1"
    and "dispatch_multi HEADSET_CONNECTED vlength' v' h1 = Returned h2"
  shows "parse_payload (HEADSET_CONNECTED # vlength # v @ HEADSET_CONNECTED # vlength' # v') h
     = Some (Returned h2)"
proof -
  let ?p = "HEADSET_CONNECTED # vlength # v @ HEADSET_CONNECTED # vlength' # v'"
  have "parse_loop ?p 0 h = parse_loop ?p (2 + length v) h1"
    using parse_loop_multi [of HEADSET_CONNECTED v vlength h h1 "[]"
        "HEADSET_CONNECTED # vlength' # v'"] assms by simp
  also have "\<dots> = parse_loop ?p (length ?p) h2"
    using parse_loop_multi [of HEADSET_CONNECTED v' vlength' h1 h2
        "HEADSET_CONNECTED # vlength # v" "[]"] assms by simp
  also have "\<dots> = Some (Returned h2)" by (rule parse_loop_end) simp
  finally show ?thesis by (simp add: parse_payload_def)
qed

text \<open>
  Claim C8. A HEADSET_CONNECTED row returns normally, sets the status to connected and
  the headset identifier to the hexadecimal text of the value bytes, whatever the status
  was, and invokes the headset-connected handlers only when the status was not
  connected before. A second HEADSET_CONNECTED row right after it invokes no handler,
  so two consecutive rows invoke each handler at most once; a payload made of the two
  rows leaves the headset that the two dispatches give.
\<close>

theorem headset_connected_rows:
  "\<exists>h1 h2.
     dispatch_multi HEADSET_CONNECTED vlength v h = Returned h1
   \<and> status h1 = Some STATUS_CONNECTED
   \<and> headset_id h1 = Some (hex v)
   \<and> calls h1 = calls h @
        (if status h \<noteq> Some STATUS_CONNECTED then entered headset_connected_handlers h else [])
   \<and> dispatch_multi HEADSET_CONNECTED vlength' v' h1 = Returned h2
   \<and> status h2 = Some STATUS_CONNECTED
   \<and> headset_id h2 = Some (hex v')
   \<and> calls h2 = calls h1
   \<and> (length v = unat vlength \<and> length v' = unat vlength' \<longrightarrow>
        parse_payload (HEADSET_CONNECTED # vlength # v @ HEADSET_CONNECTED # vlength' # v') h
          = Some (Returned h2))"
proof -
  obtain h1 where h1: "dispatch_multi HEADSET_CONNECTED vlength v h = Returned h1"
    by (simp add: dispatch_multi_connected)
  obtain h2 where h2: "dispatch_multi HEADSET_CONNECTED vlength' v' h1 = Returned h2"
    by (simp add: dispatch_multi_connected)
  from h1 have a: "status h1 = Some STATUS_CONNECTED" "headset_id h1 = Some (hex v)"
    "calls h1 = calls h @
        (if status h \<noteq> Some STATUS_CONNECTED then entered headset_connected_handlers h else [])"
    by (auto simp: dispatch_multi_connected run_handlers_def entered_def split: if_splits)
  from h2 a(1) have b: "status h2 = Some STATUS_CONNECTED" "headset_id h2 = Some (hex v')"
    "calls h2 = calls h1"
    by (auto simp: dispatch_multi_connected)
  have c: "length v = unat vlength \<and> length v' = unat vlength' \<longrightarrow>
        parse_payload (HEADSET_CONNECTED # vlength # v @ HEADSET_CONNECTED # vlength' # v') h
          = Some (Returned h2)"
    using parse_two_connected [OF _ _ h1 h2] by blast
  from h1 h2 a b c show ?thesis by blast
qed

theorem headset_connected_rows_witness:
  "length [0x12, 0x34 :: byte] = unat (2 :: byte) \<and> length [0xab :: byte] = unat (1 :: byte)
   \<and> (\<exists>h2. parse_payload (HEADSET_CONNECTED # 2 # [0x12, 0x34] @ HEADSET_CONNECTED # 1 # [0xab])
              (register headset_connected_handlers 0 (init None)) = Some (Returned h2)
         \<and> status h2 = Some STATUS_CONNECTED
         \<and> headset_id h2 = Some ''ab''
         \<and> calls h2 = [Call headset_connected_handlers 0 []])"
proof -
  let ?h = "register headset_connected_handlers 0 (init None)"
  have l1: "length [0x12, 0x34 :: byte] = unat (2 :: byte)" by simp
  have l2: "length [0xab :: byte] = unat (1 :: byte)" by simp
  note l = conjI [OF l1 l2]
  have c: "calls ?h = []" "status ?h \<noteq> Some STATUS_CONNECTED"
    "entered headset_connected_handlers ?h = [Call headset_connected_handlers 0 []]"
    by (simp_all add: register_def init_def entered_def)
  have x: "hex [0xab] = ''ab''" by (simp add: hex_def hex_digit_def)
  from headset_connected_rows [of 2 "[0x12, 0x34]" ?h 1 "[0xab]"]
  have "\<exists>h2. parse_payload (HEADSET_CONNECTED # 2 # [0x12, 0x34] @ HEADSET_CONNECTED # 1 # [0xab]) ?h
              = Some (Returned h2)
         \<and> status h2 = Some STATUS_CONNECTED
         \<and> headset_id h2 = Some ''ab''
         \<and> calls h2 = [Call headset_connected_handlers 0 []]"
  proof (elim exE conjE)
    fix h1 h2
    assume a: "calls h1 = calls ?h @
        (if status ?h \<noteq> Some STATUS_CONNECTED then entered headset_connected_handlers ?h else [])"
      and b: "status h2 = Some STATUS_CONNECTED"
      and d: "headset_id h2 = Some (hex [0xab])"
      and e: "calls h2 = calls h1"
      and i: "length [0x12, 0x34 :: byte] = unat (2 :: byte) \<and> length [0xab :: byte] = unat (1 :: byte)
        \<longrightarrow> parse_payload (HEADSET_CONNECTED # 2 # [0x12, 0x34] @ HEADSET_CONNECTED # 1 # [0xab]) ?h
          = Some (Returned h2)"
    from i l have p: "parse_payload (HEADSET_CONNECTED # 2 # [0x12, 0x34] @ HEADSET_CONNECTED # 1 # [0xab]) ?h
          = Some (Returned h2)" by (rule mp)
    from a e have "calls h2 = [Call headset_connected_handlers 0 []]" by (simp only: c) simp
    with p b d x show ?thesis by (intro exI [of _ h2]) simp
  qed
  then show ?thesis by (rule conjI [OF l1 conjI [OF l2]])
qed

lemma status_run_handlers: "status (run_handlers r args h) = status h"
  by (simp add: run_handlers_def)

lemma status_dispatch_single: "status (dispatch_single code v h) = status h"
  by (simp add: dispatch_single_def Let_def status_run_handlers)

lemma status_dispatch_raw: "status (headset_of (dispatch_raw code v h)) = status h"
  by (simp add: dispatch_raw_def Let_def status_run_handlers split: list.split)

lemma status_dispatch_status:
  "code \<noteq> HEADSET_CONNECTED \<Longrightarrow> code \<noteq> STANDBY_SCAN \<Longrightarrow>
   status (dispatch_status code vlength v h) = status h"
  by (simp add: dispatch_status_def Let_def status_run_handlers)

lemma status_dispatch_multi:
  "code \<noteq> HEADSET_CONNECTED \<Longrightarrow> code \<noteq> STANDBY_SCAN \<Longrightarrow>
   status (headset_of (dispatch_multi code vlength v h)) = status h"
  using status_dispatch_raw [of code v h]
  by (cases "dispatch_raw code v h") (simp_all add: dispatch_multi_def status_dispatch_status)

lemma status_parse_row:
  assumes "fst (skip_excode payload (payload ! index) (index + 1) 0) \<noteq> HEADSET_CONNECTED"
    and "fst (skip_excode payload (payload ! index) (index + 1) 0) \<noteq> STANDBY_SCAN"
  shows "status (row_headset (parse_row payload index h)) = status h"
proof -
  obtain c j e where s: "skip_excode payload (payload ! index) (index + 1) 0 = (c, j, e)"
    by (cases "skip_excode payload (payload ! index) (index + 1) 0") auto
  with assms have c: "c \<noteq> HEADSET_CONNECTED" "c \<noteq> STANDBY_SCAN" by simp_all
  have m: "status (headset_of (dispatch_multi c vl v h)) = status h" for vl v
    using c by (rule status_dispatch_multi)
  show ?thesis
  proof (cases "dispatch_multi c (payload ! j) (take (unat (payload ! j)) (drop (Suc j) payload)) h")
    case (Returned h')
    with m [of "payload ! j" "take (unat (payload ! j)) (drop (Suc j) payload)"] s
    show ?thesis by (simp add: parse_row_def Let_def status_dispatch_single)
  next
    case (Raised e h')
    with m [of "payload ! j" "take (unat (payload ! j)) (drop (Suc j) payload)"] s
    show ?thesis by (simp add: parse_row_def Let_def status_dispatch_single)
  qed
qed

text \<open>
  Claim C9. Dispatching a row whose code is neither HEADSET_CONNECTED nor STANDBY_SCAN
  leaves the status unchanged: in the single-byte branch, in the multi-byte branch
  (also when RAW_VALUE raises), and for one iteration of the loop of \<open>parse_payload\<close>
  at any index of any payload where the code read, after the EXCODE bytes, is that code,
  however the iteration ends. HEADSET_DISCONNECTED, HEADSET_NOT_FOUND and
  REQUEST_DENIED are such codes.
\<close>

theorem status_frame:
  assumes "code \<noteq> HEADSET_CONNECTED" and "code \<noteq> STANDBY_SCAN"
  shows "status (dispatch_single code v h) = status h
     \<and> status (headset_of (dispatch_multi code vlength vs h)) = status h
     \<and> (\<forall>payload index.
          fst (skip_excode payload (payload ! index) (index + 1) 0) = code \<longrightarrow>
          status (row_headset (parse_row payload index h)) = status h)"
  using assms
  by (simp add: status_dispatch_single status_dispatch_multi status_parse_row)

theorem status_frame_witness:
  "HEADSET_DISCONNECTED \<noteq> HEADSET_CONNECTED \<and> HEADSET_DISCONNECTED \<noteq> STANDBY_SCAN
   \<and> status (headset_of (dispatch_multi HEADSET_DISCONNECTED 2 [0x12, 0x34]
        ((init None)\<lparr>status := Some STATUS_CONNECTED\<rparr>))) = Some STATUS_CONNECTED
   \<and> status (row_headset (parse_row [HEADSET_DISCONNECTED, 2, 0x12, 0x34] 0
        ((init None)\<lparr>status := Some STATUS_CONNECTED\<rparr>))) = Some STATUS_CONNECTED"
proof -
  let ?h = "(init None)\<lparr>status := Some STATUS_CONNECTED\<rparr>"
  have 1: "HEADSET_DISCONNECTED \<noteq> HEADSET_CONNECTED" by simp
  have 2: "HEADSET_DISCONNECTED \<noteq> STANDBY_SCAN" by simp
  note t = status_frame [OF 1 2, of 0 ?h 2 "[0x12, 0x34]"]
  have k: "fst (skip_excode [HEADSET_DISCONNECTED, 2, 0x12, 0x34]
      ([HEADSET_DISCONNECTED, 2, 0x12, 0x34] ! 0) (0 + 1) 0) = HEADSET_DISCONNECTED"
    by (simp add: skip_excode_other)
  have s: "status ?h = Some STATUS_CONNECTED" by simp
  from t k have "status (row_headset (parse_row [HEADSET_DISCONNECTED, 2, 0x12, 0x34] 0 ?h))
      = status ?h" by blast
  moreover from t have "status (headset_of (dispatch_multi HEADSET_DISCONNECTED 2 [0x12, 0x34] ?h))
      = status ?h" by blast
  ultimately show ?thesis using 1 2 s by simp
qed

subsection \<open>Termination\<close>

text \<open>
  Claim C10. For every payload and every starting headset, \<open>parse_payload\<close> terminates:
  the loop, defined with no assumption on its termination, has exactly one result, which
  is a function of the payload and the starting headset alone; and every iteration that
  reaches the end of the loop body has strictly increased the index, also for a
  multi-byte row of \<open>vlength\<close> 0.
\<close>

theorem parse_payload_terminates:
  "(\<exists>!r. parse_payload payload h = Some r) \<and>
   (\<forall>index h0 index' h'. parse_row payload index h0 = Next index' h' \<longrightarrow> index < index')"
proof (intro conjI allI impI)
  from parse_loop_total [of payload 0 h]
  show "\<exists>!r. parse_payload payload h = Some r"
    unfolding parse_payload_def by auto
next
  fix index h0 index' h'
  assume "parse_row payload index h0 = Next index' h'"
  then show "index < index'" by (rule parse_row_Next_index)
qed

theorem parse_payload_terminates_witness:
  "(\<exists>!r. parse_payload [REQUEST_DENIED, 0] (init None) = Some r) \<and>
   parse_row [REQUEST_DENIED, 0] 0 (init None) = Next 2 (init None) \<and> (0::nat) < 2"
proof -
  note t = parse_payload_terminates [of "[REQUEST_DENIED, 0]" "init None"]
  have r: "parse_row [REQUEST_DENIED, 0] 0 (init None) = Next 2 (init None)"
    by (simp add: parse_row_def skip_excode_other dispatch_multi_def dispatch_raw_def
        dispatch_status_def run_handlers_def init_def)
  from t r have "(0::nat) < 2" by blast
  with t r show ?thesis by blast
qed

end
